theory Spec2Isabelle
  imports Main "HOL-Library.Word"
begin

section \<open>Values exchanged with the external collaborators\<close>

text \<open>
  A Go \<open>error\<close> is represented by its message; the \<open>nil\<close> error is \<open>None\<close> of
  \<open>err option\<close>. Byte counts are \<open>uint64\<close>. A duration is an \<open>int64\<close> of nanoseconds,
  read with \<open>sint\<close>; an instant is a number of nanoseconds, an \<open>int\<close>.
\<close>

type_synonym err = string
type_synonym u64 = "64 word"
type_synonym duration = "64 word"

text \<open>
  Modelled from the spec: the type \<open>filters.Args\<close> of the engine library is not part of
  the repository. The spec calls it the Filter Set, "a set of key/value match criteria";
  its contents are a set of (key, value) pairs. In Go the struct holds a map, which is a
  reference: copying an \<open>Args\<close> value (passing it to a function) copies the reference and
  shares the map. An \<open>Args\<close> value is therefore a reference into a store of maps.
\<close>

type_synonym fields = "(string \<times> string) set"
type_synonym Args = nat

text \<open>
  Modelled from the spec: a prune capability returns "a removed-count, a reclaimed-byte
  count (zero where inapplicable), and an error". The report types are declared in the
  engine library; one record stands for the four of them.
\<close>

record report =
  Deleted :: "string list"
  SpaceReclaimed :: u64

text \<open>The context handed to the engine calls: what the code fixes of it is its deadline.\<close>

record Context =
  deadline :: int

text \<open>
  The engine client \<open>client.APIClient\<close>, reduced to the four capabilities the program
  uses. Each receives the context and the contents of the filter set at the time of the call.
\<close>

record client =
  ContainersPrune :: "Context \<Rightarrow> fields \<Rightarrow> err + report"
  ImagesPrune :: "Context \<Rightarrow> fields \<Rightarrow> err + report"
  NetworksPrune :: "Context \<Rightarrow> fields \<Rightarrow> err + report"
  VolumesPrune :: "Context \<Rightarrow> fields \<Rightarrow> err + report"

text \<open>
  The two functions of the \<open>filters\<close> package that \<open>cloneArgs\<close> calls are parameters of the
  model. Like the Go functions they return a value and an error together.
\<close>

record codec =
  ToParam :: "fields \<Rightarrow> string \<times> err option"
  FromParam :: "string \<Rightarrow> fields \<times> err option"

section \<open>Logging and formatting\<close>

datatype level = InfoLevel | WarnLevel | ErrorLevel | FatalLevel

datatype operand = AStr string | AInt int | AU64 u64 | AErr err | ABool bool

text \<open>
  A call of a logger method: \<open>Print\<close> for the methods that take operands only
  (\<open>Info\<close>, \<open>Warn\<close>, \<open>Error\<close>), \<open>Printf\<close> for those that take a format string
  (\<open>Infof\<close>, \<open>Fatalf\<close>).
\<close>

datatype entry = Print level "operand list" | Printf level string "operand list"

definition digit :: "nat \<Rightarrow> char" where
  "digit n = ''0123456789'' ! (n mod 10)"

fun show_nat :: "nat \<Rightarrow> string" where
  "show_nat n = (if n < 10 then [digit n] else show_nat (n div 10) @ [digit n])"

declare show_nat.simps [simp del]

definition show_int :: "int \<Rightarrow> string" where
  "show_int i = (if i < 0 then CHR ''-'' # show_nat (nat (- i)) else show_nat (nat i))"

text \<open>The default format of an operand (the verbs \<open>%v\<close> and \<open>%d\<close> agree on integers).\<close>

fun format :: "operand \<Rightarrow> string" where
  "format (AStr s) = s"
| "format (AInt i) = show_int i"
| "format (AU64 w) = show_nat (unat w)"
| "format (AErr e) = e"
| "format (ABool b) = (if b then ''true'' else ''false'')"

fun is_string :: "operand \<Rightarrow> bool" where
  "is_string (AStr s) = True"
| "is_string a = False"

text \<open>
  \<open>fmt.Sprint\<close>: the operands in their default formats, one after the other; a space is
  added between two operands when neither is a string. No operand is read as a format.
\<close>

fun Sprint :: "operand list \<Rightarrow> string" where
  "Sprint [] = []"
| "Sprint [a] = format a"
| "Sprint (a # b # as) =
     format a @ (if \<not> is_string a \<and> \<not> is_string b then '' '' else []) @ Sprint (b # as)"

text \<open>
  \<open>fmt.Sprintf\<close> for the verbs the program uses, \<open>%d\<close> and \<open>%v\<close>: each takes the next
  operand; a verb with no operand left prints as \<open>%!d(MISSING)\<close>. Every format of the
  program has as many verbs as operands.
\<close>

fun Sprintf :: "string \<Rightarrow> operand list \<Rightarrow> string" where
  "Sprintf [] as = []"
| "Sprintf [c] as = [c]"
| "Sprintf (c # v # cs) as =
     (if c = CHR ''%'' \<and> (v = CHR ''d'' \<or> v = CHR ''v'')
      then (case as of
              [] \<Rightarrow> ''%!'' @ [v] @ ''(MISSING)'' @ Sprintf cs []
            | a # as' \<Rightarrow> format a @ Sprintf cs as')
      else c # Sprintf (v # cs) as)"

text \<open>The text a logger call writes.\<close>

fun render :: "entry \<Rightarrow> string" where
  "render (Print l as) = Sprint as"
| "render (Printf l f as) = Sprintf f as"


section \<open>The store and the record of what a cycle did\<close>

datatype op = Containers | Images | Networks | Volumes

text \<open>
  An engine call as observed from outside: the capability, the context, the \<open>Args\<close>
  reference passed and the contents of its map at the time of the call.
\<close>

datatype call = Call op Context Args fields

fun call_op :: "call \<Rightarrow> op" where
  "call_op (Call p c a f) = p"

fun call_ref :: "call \<Rightarrow> Args" where
  "call_ref (Call p c a f) = a"

fun call_fields :: "call \<Rightarrow> fields" where
  "call_fields (Call p c a f) = f"

fun call_ctx :: "call \<Rightarrow> Context" where
  "call_ctx (Call p c a f) = c"

record world =
  heap :: "nat \<Rightarrow> fields"
  next_ref :: nat
  calls :: "call list"
  logged :: "entry list"

definition log :: "entry \<Rightarrow> world \<Rightarrow> world" where
  "log e w = w\<lparr>logged := logged w @ [e]\<rparr>"

definition invoke :: "op \<Rightarrow> Context \<Rightarrow> Args \<Rightarrow> world \<Rightarrow> world" where
  "invoke p ctx a w = w\<lparr>calls := calls w @ [Call p ctx a (heap w a)]\<rparr>"

text \<open>
  \<open>filters.Args.Add\<close>: adds the pair to the map the value refers to, in place. Every
  holder of the same reference sees the change.
\<close>

definition Add :: "Args \<Rightarrow> string \<Rightarrow> string \<Rightarrow> world \<Rightarrow> world" where
  "Add a name v w = w\<lparr>heap := (heap w)(a := insert (name, v) (heap w a))\<rparr>"

section \<open>The cleanup executor\<close>

text \<open>
  \<open>cloneArgs\<close>: both errors are assigned to the blank identifier. The string that
  \<open>ToParam\<close> returns is passed on whether or not it failed, and the value that
  \<open>FromParam\<close> returns is the result whether or not it failed. \<open>FromParam\<close> builds a map
  of its own, so the result is a new reference.
\<close>

definition cloneArgs :: "codec \<Rightarrow> Args \<Rightarrow> world \<Rightarrow> Args \<times> world" where
  "cloneArgs lib pruneFilter w =
     (let s = fst (ToParam lib (heap w pruneFilter));
          newArgs = fst (FromParam lib s);
          r = next_ref w
      in (r, w\<lparr>heap := (heap w)(r := newArgs), next_ref := Suc r\<rparr>))"

type_synonym prune_result = "u64 \<times> string \<times> err option"

definition pruneContainers ::
  "Context \<Rightarrow> client \<Rightarrow> bool \<Rightarrow> Args \<Rightarrow> world \<Rightarrow> prune_result \<times> world" where
  "pruneContainers ctx cli all pruneFilter w =
     (let w1 = invoke Containers ctx pruneFilter w
      in case ContainersPrune cli ctx (heap w pruneFilter) of
           Inl e \<Rightarrow> ((0, [], Some e), w1)
         | Inr rep \<Rightarrow>
             ((SpaceReclaimed rep,
               Sprintf ''Deleted Containers: %d, Reclaimed Space: %d''
                 [AInt (int (length (Deleted rep))), AU64 (SpaceReclaimed rep)],
               None), w1))"

definition pruneNetworks ::
  "Context \<Rightarrow> client \<Rightarrow> bool \<Rightarrow> Args \<Rightarrow> world \<Rightarrow> prune_result \<times> world" where
  "pruneNetworks ctx cli all pruneFilter w =
     (let w1 = invoke Networks ctx pruneFilter w
      in case NetworksPrune cli ctx (heap w pruneFilter) of
           Inl e \<Rightarrow> ((0, [], Some e), w1)
         | Inr rep \<Rightarrow>
             ((0, Sprintf ''Deleted Networks: %d'' [AInt (int (length (Deleted rep)))],
               None), w1))"

definition pruneVolumes ::
  "Context \<Rightarrow> client \<Rightarrow> bool \<Rightarrow> Args \<Rightarrow> world \<Rightarrow> prune_result \<times> world" where
  "pruneVolumes ctx cli all pruneFilter w =
     (let w1 = invoke Volumes ctx pruneFilter w
      in case VolumesPrune cli ctx (heap w pruneFilter) of
           Inl e \<Rightarrow> ((0, [], Some e), w1)
         | Inr rep \<Rightarrow>
             ((SpaceReclaimed rep,
               Sprintf ''Deleted Volumes: %d, Reclaimed Space: %d''
                 [AInt (int (length (Deleted rep))), AU64 (SpaceReclaimed rep)],
               None), w1))"

definition pruneImages ::
  "codec \<Rightarrow> Context \<Rightarrow> client \<Rightarrow> bool \<Rightarrow> Args \<Rightarrow> world \<Rightarrow> prune_result \<times> world" where
  "pruneImages lib ctx cli all pruneFilter w =
     (let (newArgs, w1) = cloneArgs lib pruneFilter w;
          w2 = Add newArgs ''dangling'' (Sprintf ''%v'' [ABool (\<not> all)]) w1;
          w3 = invoke Images ctx newArgs w2
      in case ImagesPrune cli ctx (heap w2 newArgs) of
           Inl e \<Rightarrow> ((0, [], Some e), w3)
         | Inr rep \<Rightarrow>
             ((SpaceReclaimed rep,
               Sprintf ''Deleted Images: %d, Reclaimed Space: %d''
                 [AInt (int (length (Deleted rep))), AU64 (SpaceReclaimed rep)],
               None), w3))"

type_synonym prune_func =
  "Context \<Rightarrow> client \<Rightarrow> bool \<Rightarrow> Args \<Rightarrow> world \<Rightarrow> prune_result \<times> world"

definition pruneFuncs :: "codec \<Rightarrow> prune_func list" where
  "pruneFuncs lib = [pruneContainers, pruneImages lib, pruneNetworks, pruneVolumes]"

text \<open>
  The loop of \<open>runPrune\<close> over the slice of functions, with the running \<open>total\<close>: it
  returns at the first error, before adding to the total and before logging the output.
\<close>

fun prune_loop ::
  "prune_func list \<Rightarrow> Context \<Rightarrow> client \<Rightarrow> bool \<Rightarrow> Args \<Rightarrow> u64 \<Rightarrow> world
     \<Rightarrow> (err option \<times> u64) \<times> world" where
  "prune_loop [] ctx cli all pruneFilter total' w = ((None, total'), w)"
| "prune_loop (f # fs) ctx cli all pruneFilter total' w =
     (case f ctx cli all pruneFilter w of
        ((spaceReclaimed, output, Some e), w1) \<Rightarrow> ((Some e, total'), w1)
      | ((spaceReclaimed, output, None), w1) \<Rightarrow>
          prune_loop fs ctx cli all pruneFilter (total' + spaceReclaimed)
            (log (Print InfoLevel [AStr output]) w1))"

definition runPrune ::
  "codec \<Rightarrow> Context \<Rightarrow> client \<Rightarrow> bool \<Rightarrow> Args \<Rightarrow> world \<Rightarrow> err option \<times> world" where
  "runPrune lib ctx cli all pruneFilter w =
     (case prune_loop (pruneFuncs lib) ctx cli all pruneFilter 0 w of
        ((Some e, total'), w1) \<Rightarrow> (Some e, w1)
      | ((None, total'), w1) \<Rightarrow>
          (None, log (Printf InfoLevel ''Total reclaimed space: %d'' [AU64 total']) w1))"


text \<open>
  What the image-prune capability is to receive for a filter set with contents \<open>f\<close>: the
  contents of the copy that \<open>cloneArgs\<close> makes, with the dangling criterion added.
\<close>

definition image_fields :: "codec \<Rightarrow> bool \<Rightarrow> fields \<Rightarrow> fields" where
  "image_fields lib all f =
     insert (''dangling'', if all then ''false'' else ''true'')
       (fst (FromParam lib (fst (ToParam lib f))))"

text \<open>The engine's answer to a recorded call.\<close>

fun response :: "client \<Rightarrow> call \<Rightarrow> err + report" where
  "response cli (Call Containers ctx a f) = ContainersPrune cli ctx f"
| "response cli (Call Images ctx a f) = ImagesPrune cli ctx f"
| "response cli (Call Networks ctx a f) = NetworksPrune cli ctx f"
| "response cli (Call Volumes ctx a f) = VolumesPrune cli ctx f"

fun reports_total :: "entry \<Rightarrow> bool" where
  "reports_total (Printf l f as) = (f = ''Total reclaimed space: %d'')"
| "reports_total (Print l as) = False"

text \<open>The log line of an operation that reports a count and a size.\<close>

definition summary :: "string \<Rightarrow> report \<Rightarrow> entry" where
  "summary f rep =
     Print InfoLevel
       [AStr (Sprintf f [AInt (int (length (Deleted rep))), AU64 (SpaceReclaimed rep)])]"

text \<open>
  The convention of Go functions that return a value and an error, for the two functions
  of the codec: with an error comes the zero value (the empty string, the empty filter
  set); and the empty string decodes to the empty filter set.
\<close>

definition zero_on_error :: "codec \<Rightarrow> bool" where
  "zero_on_error lib \<longleftrightarrow>
     (\<forall>f. snd (ToParam lib f) \<noteq> None \<longrightarrow> fst (ToParam lib f) = []) \<and>
     (\<forall>s. snd (FromParam lib s) \<noteq> None \<longrightarrow> fst (FromParam lib s) = {}) \<and>
     fst (FromParam lib []) = {}"

section \<open>Startup\<close>

record config =
  filterF :: "string list"
  intervalF :: duration
  allF :: bool

text \<open>
  What the process finds around it at startup: the flag parser of the \<open>filters\<close> package,
  the outcome of connecting to the engine, and the codec.
\<close>

record env =
  ParseFlag :: "string \<Rightarrow> fields \<Rightarrow> fields \<times> err option"
  NewEnvClient :: "err + client"
  filters_pkg :: codec

text \<open>
  The ways the process ends: \<open>Fatalf\<close> logs the entry and exits; \<open>time.NewTicker\<close>
  panics on an interval that is not positive.
\<close>

datatype exit = Fatal entry | Panic string

text \<open>The loop over the \<open>--filter\<close> values: the first error ends it.\<close>

fun parse_filters ::
  "(string \<Rightarrow> fields \<Rightarrow> fields \<times> err option) \<Rightarrow> string list \<Rightarrow> fields \<Rightarrow> err + fields" where
  "parse_filters pf [] args = Inr args"
| "parse_filters pf (s # ss) args =
     (case pf s args of
        (args', Some e) \<Rightarrow> Inl e
      | (args', None) \<Rightarrow> parse_filters pf ss args')"

section \<open>The cycle scheduler\<close>

text \<open>
  A buffered Go channel of values without content is the number of values it holds. A
  send on a channel whose buffer is full blocks the sender: \<open>None\<close>.
\<close>

definition chan_send :: "nat \<Rightarrow> nat \<Rightarrow> nat option" where
  "chan_send cap n = (if n < cap then Some (Suc n) else None)"

text \<open>
  Where the coordinator (the \<open>for\<close> loop of \<open>main\<close>) stands: at the outer \<open>select\<close>, inside
  the send \<open>queue <- struct{}{}\<close> of the ticker case with the buffer full, or at the inner
  \<open>select\<close> waiting for the cycle it started.
\<close>

datatype pc = OuterSelect | SendBlocked | InnerSelect

text \<open>
  A worker goroutine is either inside \<open>runPrune\<close> or has its result and is sending it on
  its \<open>errCh\<close>, which has no buffer.
\<close>

datatype phase = Executing | Sending "err option"

record worker =
  wctx :: Context
  expired :: bool
  phase :: phase

text \<open>
  The state of the process after startup. \<open>workers\<close> holds the goroutines that have not
  exited, the latest first; at the inner \<open>select\<close> the coordinator waits for the first.
\<close>

record sched =
  interval :: duration
  all_flag :: bool
  st_args :: Args
  st_cli :: client
  st_lib :: codec
  queue :: nat
  ticker :: nat
  pc :: pc
  workers :: "worker list"
  world_of :: world

text \<open>
  \<open>main\<close> up to the loop (lines 15 to 45): the filters are parsed into the map of
  \<open>args\<close>, reference 0 of the store; the client is made; the ticker is made; the queue of
  capacity 1 is made and receives the request of the first cycle.
\<close>

definition startup :: "env \<Rightarrow> config \<Rightarrow> exit + sched" where
  "startup ev cfg =
     (case parse_filters (ParseFlag ev) (filterF cfg) {} of
        Inl e \<Rightarrow> Inl (Fatal (Printf FatalLevel ''Failed to parse filter argument: %v'' [AErr e]))
      | Inr f \<Rightarrow>
          (case NewEnvClient ev of
             Inl e \<Rightarrow>
               Inl (Fatal (Printf FatalLevel ''Failed to create Docker client: %v'' [AErr e]))
           | Inr c \<Rightarrow>
               if sint (intervalF cfg) \<le> 0
               then Inl (Panic ''non-positive interval for NewTicker'')
               else (case chan_send 1 0 of
                       None \<Rightarrow> Inl (Panic ''all goroutines are asleep - deadlock!'')
                     | Some q \<Rightarrow>
                         Inr \<lparr>interval = intervalF cfg, all_flag = allF cfg, st_args = 0,
                              st_cli = c, st_lib = filters_pkg ev, queue = q, ticker = 0,
                              pc = OuterSelect, workers = [],
                              world_of = \<lparr>heap = (\<lambda>r. {})(0 := f), next_ref = 1,
                                          calls = [], logged = []\<rparr>\<rparr>)))"

text \<open>
  The events of a run. \<open>Tick\<close>, \<open>Expire\<close> and \<open>Finish\<close> belong to the surroundings: the
  timer fires, the deadline of a worker's context passes, a worker's \<open>runPrune\<close> returns.
  The others are the cases the coordinator takes at a \<open>select\<close>; \<open>TakeRequest\<close> carries
  the reading of the clock. Workers are named by their position in \<open>workers\<close>.
\<close>

datatype event =
    Tick
  | TakeTick
  | TakeRequest int
  | Expire nat
  | Finish nat
  | TakeDone
  | TakeResult

text \<open>
  One event, \<open>None\<close> when it cannot happen in the state.
  \<^item> \<open>Tick\<close>: the runtime puts a tick into \<open>ticker.C\<close>, of capacity 1, and drops it when
    the channel is full.
  \<^item> \<open>TakeTick\<close> (line 49): the coordinator receives the tick and sends on \<open>queue\<close>.
  \<^item> \<open>TakeRequest\<close> (lines 51 to 58): the coordinator receives from \<open>queue\<close>, logs,
    makes the context and starts the worker; a context whose timeout is not positive is
    done from the start.
  \<^item> \<open>Finish\<close>: the worker's \<open>runPrune\<close> returns; its calls and log lines are recorded
    at this point.
  \<^item> \<open>TakeDone\<close> (lines 60, 61) and \<open>TakeResult\<close> (lines 62 to 67): the cases of the
    inner \<open>select\<close>. After \<open>TakeResult\<close> the worker's send is complete and it exits.
\<close>

fun step :: "event \<Rightarrow> sched \<Rightarrow> sched option" where
  "step Tick s =
     Some (s\<lparr>ticker := (case chan_send 1 (ticker s) of Some n \<Rightarrow> n | None \<Rightarrow> ticker s)\<rparr>)"
| "step TakeTick s =
     (if pc s = OuterSelect \<and> 0 < ticker s
      then (case chan_send 1 (queue s) of
              Some n \<Rightarrow> Some (s\<lparr>ticker := ticker s - 1, queue := n\<rparr>)
            | None \<Rightarrow> Some (s\<lparr>ticker := ticker s - 1, pc := SendBlocked\<rparr>))
      else None)"
| "step (TakeRequest now) s =
     (if pc s = OuterSelect \<and> 0 < queue s
      then (let w1 = log (Print InfoLevel [AStr ''Start cleaning up unused data'']) (world_of s);
                timeout = interval s - 1000000000;
                ctx = \<lparr>deadline = now + sint timeout\<rparr>;
                wk = \<lparr>wctx = ctx, expired = (sint timeout \<le> 0), phase = Executing\<rparr>
            in Some (s\<lparr>queue := queue s - 1, pc := InnerSelect,
                      workers := wk # workers s, world_of := w1\<rparr>))
      else None)"
| "step (Expire i) s =
     (if i < length (workers s) \<and> \<not> expired (workers s ! i)
      then Some (s\<lparr>workers := (workers s)[i := (workers s ! i)\<lparr>expired := True\<rparr>]\<rparr>)
      else None)"
| "step (Finish i) s =
     (if i < length (workers s) \<and> phase (workers s ! i) = Executing
      then (let (res, w1) = runPrune (st_lib s) (wctx (workers s ! i)) (st_cli s) (all_flag s)
                              (st_args s) (world_of s)
            in Some (s\<lparr>workers := (workers s)[i := (workers s ! i)\<lparr>phase := Sending res\<rparr>],
                      world_of := w1\<rparr>))
      else None)"
| "step TakeDone s =
     (case workers s of
        [] \<Rightarrow> None
      | wk # ws \<Rightarrow>
          if pc s = InnerSelect \<and> expired wk
          then Some (s\<lparr>pc := OuterSelect,
                      world_of := log (Print WarnLevel [AStr ''context deadline exceeded''])
                                    (world_of s)\<rparr>)
          else None)"
| "step TakeResult s =
     (case workers s of
        [] \<Rightarrow> None
      | wk # ws \<Rightarrow>
          if pc s = InnerSelect
          then (case phase wk of
                  Executing \<Rightarrow> None
                | Sending res \<Rightarrow>
                    Some (s\<lparr>pc := OuterSelect, workers := ws,
                            world_of :=
                              log (case res of
                                     Some e \<Rightarrow> Print ErrorLevel [AStr ''Error occur: %v'', AErr e]
                                   | None \<Rightarrow> Print InfoLevel [AStr ''Finished cleaning''])
                                (world_of s)\<rparr>))
          else None)"

fun run :: "event list \<Rightarrow> sched \<Rightarrow> sched option" where
  "run [] s = Some s"
| "run (e # es) s = (case step e s of None \<Rightarrow> None | Some s' \<Rightarrow> run es s')"

text \<open>A run of the process from its start: \<open>None\<close> when startup ends it.\<close>

definition run_from :: "env \<Rightarrow> config \<Rightarrow> event list \<Rightarrow> sched option" where
  "run_from ev cfg es = (case startup ev cfg of Inl x \<Rightarrow> None | Inr s0 \<Rightarrow> run es s0)"

text \<open>The states the process can be in: those a run from its start leads to.\<close>

definition reachable :: "env \<Rightarrow> config \<Rightarrow> sched \<Rightarrow> bool" where
  "reachable ev cfg s \<longleftrightarrow> (\<exists>es. run_from ev cfg es = Some s)"

text \<open>
  The Cycle Executions that are active: the workers inside \<open>runPrune\<close>; and those among
  them whose context is not done.
\<close>

definition active :: "sched \<Rightarrow> nat" where
  "active s = length (filter (\<lambda>wk. phase wk = Executing) (workers s))"

definition live :: "sched \<Rightarrow> nat" where
  "live s = length (filter (\<lambda>wk. phase wk = Executing \<and> \<not> expired wk) (workers s))"


text \<open>What holds in every state of a run (used for the properties of reachable states).\<close>

definition inv :: "config \<Rightarrow> sched \<Rightarrow> bool" where
  "inv cfg s \<longleftrightarrow>
     queue s \<le> 1 \<and> ticker s \<le> 1 \<and>
     (pc s = InnerSelect \<longrightarrow> queue s = 0 \<and> workers s \<noteq> []) \<and>
     (\<forall>i < length (workers s). 0 < i \<or> pc s \<noteq> InnerSelect \<longrightarrow> expired (workers s ! i)) \<and>
     interval s = intervalF cfg \<and> 0 < sint (interval s) \<and>
     st_args s < next_ref (world_of s)"

section \<open>The worked example of the specification, and variations of it\<close>

text \<open>
  Interval 24 hours, one filter \<open>label=env=staging\<close>, \<open>all\<close> false. The engine removes 5
  containers (1000 bytes), 2 images (2000 bytes), 1 network and 3 volumes (500 bytes); it
  reports 77 bytes for the networks, which the program is to ignore. The flag parser splits
  at the first \<open>=\<close>; the codec serialises the filter set of the example and the empty one.
\<close>

fun split_eq :: "string \<Rightarrow> (string \<times> string) option" where
  "split_eq [] = None"
| "split_eq (c # cs) =
     (if c = CHR ''='' then Some ([], cs)
      else (case split_eq cs of None \<Rightarrow> None | Some (k, v) \<Rightarrow> Some (c # k, v)))"

definition sample_ParseFlag :: "string \<Rightarrow> fields \<Rightarrow> fields \<times> err option" where
  "sample_ParseFlag s f =
     (case split_eq s of
        None \<Rightarrow> (f, Some ''bad format of filter (expected name=value)'')
      | Some (k, v) \<Rightarrow> (insert (k, v) f, None))"

definition sample_codec :: codec where
  "sample_codec =
     \<lparr>ToParam = (\<lambda>f. (if f = {} then [] else ''label=env=staging'', None)),
      FromParam = (\<lambda>s. (if s = [] then {} else {(''label'', ''env=staging'')}, None))\<rparr>"

text \<open>A codec whose serialisation always fails.\<close>

definition failing_codec :: codec where
  "failing_codec =
     \<lparr>ToParam = (\<lambda>f. ([], Some ''json: unsupported value'')),
      FromParam = (\<lambda>s. ({}, if s = [] then None else Some ''invalid filter''))\<rparr>"

definition sample_client :: client where
  "sample_client =
     \<lparr>ContainersPrune = (\<lambda>ctx f. Inr \<lparr>Deleted = replicate 5 ''c'', SpaceReclaimed = 1000\<rparr>),
      ImagesPrune = (\<lambda>ctx f.
        if f = {(''label'', ''env=staging''), (''dangling'', ''true'')}
        then Inr \<lparr>Deleted = replicate 2 ''i'', SpaceReclaimed = 2000\<rparr>
        else Inl ''unexpected filters''),
      NetworksPrune = (\<lambda>ctx f. Inr \<lparr>Deleted = [''n''], SpaceReclaimed = 77\<rparr>),
      VolumesPrune = (\<lambda>ctx f. Inr \<lparr>Deleted = replicate 3 ''v'', SpaceReclaimed = 500\<rparr>)\<rparr>"

text \<open>An engine whose container-prune capability fails.\<close>

definition failing_client :: client where
  "failing_client = sample_client\<lparr>ContainersPrune := (\<lambda>ctx f. Inl ''engine unavailable'')\<rparr>"

definition sample_env :: env where
  "sample_env =
     \<lparr>ParseFlag = sample_ParseFlag, NewEnvClient = Inr sample_client,
      filters_pkg = sample_codec\<rparr>"


definition sample_config :: config where
  "sample_config =
     \<lparr>filterF = [''label=env=staging''], intervalF = 86400000000000, allF = False\<rparr>"

text \<open>The same with \<open>--interval=1ns\<close>: the timer has fired by the time the loop starts.\<close>

definition fast_config :: config where
  "fast_config = sample_config\<lparr>intervalF := 1\<rparr>"

definition sample_ctx :: Context where
  "sample_ctx = \<lparr>deadline = 86399000000000\<rparr>"

definition sample_world :: world where
  "sample_world =
     \<lparr>heap = (\<lambda>r. {})(0 := {(''label'', ''env=staging'')}), next_ref = 1,
      calls = [], logged = []\<rparr>"

definition sample_start :: "client \<Rightarrow> duration \<Rightarrow> sched" where
  "sample_start c d =
     \<lparr>interval = d, all_flag = False, st_args = 0, st_cli = c, st_lib = sample_codec,
      queue = 1, ticker = 0, pc = OuterSelect, workers = [], world_of = sample_world\<rparr>"

text \<open>
  The state of the example with the failing engine after the first cycle's worker has
  returned: the coordinator is at the inner \<open>select\<close>, the worker is sending its error.
\<close>

definition failed_state :: sched where
  "failed_state =
     (sample_start failing_client 86400000000000)
       \<lparr>queue := 0, pc := InnerSelect,
        workers := [\<lparr>wctx = sample_ctx, expired = False,
                     phase = Sending (Some ''engine unavailable'')\<rparr>],
        world_of := sample_world
          \<lparr>calls := [Call Containers sample_ctx 0 {(''label'', ''env=staging'')}],
           logged := [Print InfoLevel [AStr ''Start cleaning up unused data'']]\<rparr>\<rparr>"


text \<open>
  A run in which the first cycle times out and the second starts at the next tick while
  the first worker has not returned.
\<close>

definition overlap_run :: "event list" where
  "overlap_run =
     [TakeRequest 0, Expire 0, TakeDone, Tick, TakeTick, TakeRequest 86400000000000]"


section \<open>Properties of the cleanup executor\<close>

lemma Sprintf_bool: "Sprintf ''%v'' [ABool b] = (if b then ''true'' else ''false'')"
  by simp

lemma Sprintf_total:
  "Sprintf ''Total reclaimed space: %d'' [AU64 t] = ''Total reclaimed space: '' @ show_nat (unat t)"
  by simp

lemma pruneImages_eq:
  "pruneImages lib ctx cli all F w =
     (let n = next_ref w; f = image_fields lib all (heap w F);
          w3 = w\<lparr>heap := (heap w)(n := f), next_ref := Suc n,
                 calls := calls w @ [Call Images ctx n f]\<rparr>
      in case ImagesPrune cli ctx f of
           Inl e \<Rightarrow> ((0, [], Some e), w3)
         | Inr rep \<Rightarrow>
             ((SpaceReclaimed rep,
               Sprintf ''Deleted Images: %d, Reclaimed Space: %d''
                 [AInt (int (length (Deleted rep))), AU64 (SpaceReclaimed rep)],
               None), w3))"
  unfolding pruneImages_def cloneArgs_def Add_def invoke_def image_fields_def Let_def
  by (simp add: Sprintf_bool split: sum.splits)

lemmas prune_defs = pruneContainers_def pruneNetworks_def pruneVolumes_def pruneImages_eq
  invoke_def log_def Let_def

text \<open>The five ways a cycle can go, each with the state it leaves.\<close>

lemma path1:
  assumes "ContainersPrune cli ctx (heap w F) = Inl e"
  shows "runPrune lib ctx cli all F w =
           (Some e, w\<lparr>calls := calls w @ [Call Containers ctx F (heap w F)]\<rparr>)"
  using assms by (simp add: runPrune_def pruneFuncs_def prune_defs)

lemma path2:
  assumes "ContainersPrune cli ctx (heap w F) = Inr rc"
    and "ImagesPrune cli ctx (image_fields lib all (heap w F)) = Inl e"
  shows "runPrune lib ctx cli all F w = (Some e,
     w\<lparr>heap := (heap w)(next_ref w := image_fields lib all (heap w F)),
       next_ref := Suc (next_ref w),
       calls := calls w @ [Call Containers ctx F (heap w F),
                           Call Images ctx (next_ref w) (image_fields lib all (heap w F))],
       logged := logged w @ [summary ''Deleted Containers: %d, Reclaimed Space: %d'' rc]\<rparr>)"
  using assms by (simp add: runPrune_def pruneFuncs_def prune_defs summary_def)

lemma path3:
  assumes "F \<noteq> next_ref w"
    and "ContainersPrune cli ctx (heap w F) = Inr rc"
    and "ImagesPrune cli ctx (image_fields lib all (heap w F)) = Inr ri"
    and "NetworksPrune cli ctx (heap w F) = Inl e"
  shows "runPrune lib ctx cli all F w = (Some e,
     w\<lparr>heap := (heap w)(next_ref w := image_fields lib all (heap w F)),
       next_ref := Suc (next_ref w),
       calls := calls w @ [Call Containers ctx F (heap w F),
                           Call Images ctx (next_ref w) (image_fields lib all (heap w F)),
                           Call Networks ctx F (heap w F)],
       logged := logged w @
         [summary ''Deleted Containers: %d, Reclaimed Space: %d'' rc,
          summary ''Deleted Images: %d, Reclaimed Space: %d'' ri]\<rparr>)"
  using assms by (simp add: runPrune_def pruneFuncs_def prune_defs summary_def)

lemma path4:
  assumes "F \<noteq> next_ref w"
    and "ContainersPrune cli ctx (heap w F) = Inr rc"
    and "ImagesPrune cli ctx (image_fields lib all (heap w F)) = Inr ri"
    and "NetworksPrune cli ctx (heap w F) = Inr rn"
    and "VolumesPrune cli ctx (heap w F) = Inl e"
  shows "runPrune lib ctx cli all F w = (Some e,
     w\<lparr>heap := (heap w)(next_ref w := image_fields lib all (heap w F)),
       next_ref := Suc (next_ref w),
       calls := calls w @ [Call Containers ctx F (heap w F),
                           Call Images ctx (next_ref w) (image_fields lib all (heap w F)),
                           Call Networks ctx F (heap w F),
                           Call Volumes ctx F (heap w F)],
       logged := logged w @
         [summary ''Deleted Containers: %d, Reclaimed Space: %d'' rc,
          summary ''Deleted Images: %d, Reclaimed Space: %d'' ri,
          Print InfoLevel
            [AStr (Sprintf ''Deleted Networks: %d'' [AInt (int (length (Deleted rn)))])]]\<rparr>)"
  using assms by (simp add: runPrune_def pruneFuncs_def prune_defs summary_def)

lemma path5:
  assumes "F \<noteq> next_ref w"
    and "ContainersPrune cli ctx (heap w F) = Inr rc"
    and "ImagesPrune cli ctx (image_fields lib all (heap w F)) = Inr ri"
    and "NetworksPrune cli ctx (heap w F) = Inr rn"
    and "VolumesPrune cli ctx (heap w F) = Inr rv"
  shows "runPrune lib ctx cli all F w = (None,
     w\<lparr>heap := (heap w)(next_ref w := image_fields lib all (heap w F)),
       next_ref := Suc (next_ref w),
       calls := calls w @ [Call Containers ctx F (heap w F),
                           Call Images ctx (next_ref w) (image_fields lib all (heap w F)),
                           Call Networks ctx F (heap w F),
                           Call Volumes ctx F (heap w F)],
       logged := logged w @
         [summary ''Deleted Containers: %d, Reclaimed Space: %d'' rc,
          summary ''Deleted Images: %d, Reclaimed Space: %d'' ri,
          Print InfoLevel
            [AStr (Sprintf ''Deleted Networks: %d'' [AInt (int (length (Deleted rn)))])],
          summary ''Deleted Volumes: %d, Reclaimed Space: %d'' rv,
          Printf InfoLevel ''Total reclaimed space: %d''
            [AU64 (SpaceReclaimed rc + SpaceReclaimed ri + SpaceReclaimed rv)]]\<rparr>)"
  using assms by (simp add: runPrune_def pruneFuncs_def prune_defs summary_def)

lemma runPrune_paths:
  obtains
    (containers_fail) e where "ContainersPrune cli ctx (heap w F) = Inl e"
  | (images_fail) rc e where "ContainersPrune cli ctx (heap w F) = Inr rc"
      "ImagesPrune cli ctx (image_fields lib all (heap w F)) = Inl e"
  | (networks_fail) rc ri e where "ContainersPrune cli ctx (heap w F) = Inr rc"
      "ImagesPrune cli ctx (image_fields lib all (heap w F)) = Inr ri"
      "NetworksPrune cli ctx (heap w F) = Inl e"
  | (volumes_fail) rc ri rn e where "ContainersPrune cli ctx (heap w F) = Inr rc"
      "ImagesPrune cli ctx (image_fields lib all (heap w F)) = Inr ri"
      "NetworksPrune cli ctx (heap w F) = Inr rn"
      "VolumesPrune cli ctx (heap w F) = Inl e"
  | (success) rc ri rn rv where "ContainersPrune cli ctx (heap w F) = Inr rc"
      "ImagesPrune cli ctx (image_fields lib all (heap w F)) = Inr ri"
      "NetworksPrune cli ctx (heap w F) = Inr rn"
      "VolumesPrune cli ctx (heap w F) = Inr rv"
  by (meson sum.exhaust_sel Inl_Inr_False sumE)

lemma runPrune_next_ref:
  assumes "F < next_ref w" and "runPrune lib ctx cli all F w = (res, w')"
  shows "F < next_ref w'"
proof -
  from assms(1) have ne: "F \<noteq> next_ref w" by simp
  show ?thesis
  proof (cases rule: runPrune_paths
      [where cli=cli and ctx=ctx and lib=lib and all=all and w=w and F=F])
    case (containers_fail e)
    from path1 [OF this, of lib all] assms show ?thesis by auto
  next
    case (images_fail rc e)
    from path2 [OF this] assms show ?thesis by auto
  next
    case (networks_fail rc ri e)
    from path3 [OF ne this] assms show ?thesis by auto
  next
    case (volumes_fail rc ri rn e)
    from path4 [OF ne this] assms show ?thesis by auto
  next
    case (success rc ri rn rv)
    from path5 [OF ne this] assms show ?thesis by auto
  qed
qed

lemma runPrune_ctx:
  assumes "F < next_ref w" and "runPrune lib ctx cli all F w = (res, w')"
  shows "\<forall>c \<in> set (drop (length (calls w)) (calls w')). call_ctx c = ctx"
proof -
  from assms(1) have ne: "F \<noteq> next_ref w" by simp
  show ?thesis
  proof (cases rule: runPrune_paths
      [where cli=cli and ctx=ctx and lib=lib and all=all and w=w and F=F])
    case (containers_fail e)
    from path1 [OF this, of lib all] assms show ?thesis by auto
  next
    case (images_fail rc e)
    from path2 [OF this] assms show ?thesis by auto
  next
    case (networks_fail rc ri e)
    from path3 [OF ne this] assms show ?thesis by auto
  next
    case (volumes_fail rc ri rn e)
    from path4 [OF ne this] assms show ?thesis by auto
  next
    case (success rc ri rn rv)
    from path5 [OF ne this] assms show ?thesis by auto
  qed
qed

text \<open>The example, evaluated.\<close>

lemma sample_world_simps:
  "heap sample_world 0 = {(''label'', ''env=staging'')}" "next_ref sample_world = 1"
  "calls sample_world = []" "logged sample_world = []"
  by (simp_all add: sample_world_def)

lemma sample_image_fields:
  "image_fields sample_codec False {(''label'', ''env=staging'')} =
     {(''label'', ''env=staging''), (''dangling'', ''true'')}"
  by (auto simp: image_fields_def sample_codec_def)


lemma sample_cycle:
  "runPrune sample_codec sample_ctx sample_client False 0 sample_world = (None,
     sample_world\<lparr>heap := (heap sample_world)
         (1 := {(''label'', ''env=staging''), (''dangling'', ''true'')}),
       next_ref := 2,
       calls := [Call Containers sample_ctx 0 {(''label'', ''env=staging'')},
                 Call Images sample_ctx 1 {(''label'', ''env=staging''), (''dangling'', ''true'')},
                 Call Networks sample_ctx 0 {(''label'', ''env=staging'')},
                 Call Volumes sample_ctx 0 {(''label'', ''env=staging'')}],
       logged :=
         [summary ''Deleted Containers: %d, Reclaimed Space: %d''
            \<lparr>Deleted = replicate 5 ''c'', SpaceReclaimed = 1000\<rparr>,
          summary ''Deleted Images: %d, Reclaimed Space: %d''
            \<lparr>Deleted = replicate 2 ''i'', SpaceReclaimed = 2000\<rparr>,
          Print InfoLevel [AStr (Sprintf ''Deleted Networks: %d'' [AInt 1])],
          summary ''Deleted Volumes: %d, Reclaimed Space: %d''
            \<lparr>Deleted = replicate 3 ''v'', SpaceReclaimed = 500\<rparr>,
          Printf InfoLevel ''Total reclaimed space: %d'' [AU64 3500]]\<rparr>)"
proof -
  have ne: "(0::nat) \<noteq> next_ref sample_world" by (simp add: sample_world_simps)
  have c: "ContainersPrune sample_client sample_ctx (heap sample_world 0) =
             Inr \<lparr>Deleted = replicate 5 ''c'', SpaceReclaimed = 1000\<rparr>"
    by (simp add: sample_client_def)
  have i: "ImagesPrune sample_client sample_ctx
             (image_fields sample_codec False (heap sample_world 0)) =
             Inr \<lparr>Deleted = replicate 2 ''i'', SpaceReclaimed = 2000\<rparr>"
    by (simp add: sample_client_def sample_world_simps sample_image_fields)
  have n: "NetworksPrune sample_client sample_ctx (heap sample_world 0) =
             Inr \<lparr>Deleted = [''n''], SpaceReclaimed = 77\<rparr>"
    by (simp add: sample_client_def)
  have v: "VolumesPrune sample_client sample_ctx (heap sample_world 0) =
             Inr \<lparr>Deleted = replicate 3 ''v'', SpaceReclaimed = 500\<rparr>"
    by (simp add: sample_client_def)
  show ?thesis
    unfolding path5 [OF ne c i n v]
    by (simp add: sample_world_simps sample_image_fields del: Sprintf.simps)
qed

lemma failing_cycle:
  "runPrune sample_codec sample_ctx failing_client False 0 sample_world =
     (Some ''engine unavailable'',
      sample_world\<lparr>calls := [Call Containers sample_ctx 0 {(''label'', ''env=staging'')}]\<rparr>)"
proof -
  have c: "ContainersPrune failing_client sample_ctx (heap sample_world 0) =
             Inl ''engine unavailable''"
    by (simp add: failing_client_def)
  show ?thesis unfolding path1 [OF c] by (simp add: sample_world_simps)
qed

text \<open>
  Claim C3. For every filter set \<open>F\<close> and flag \<open>all\<close>, the image-prune operation calls the
  engine's image-prune capability with \<open>F\<close> extended by \<open>dangling=true\<close> when \<open>all\<close> is
  false and by \<open>dangling=false\<close> when it is true; the outcome of the operation is the
  engine's answer to that call. The codec is a parameter: the hypothesis is that
  serialising and reparsing \<open>F\<close> gives back the contents of \<open>F\<close>.
\<close>

theorem pruneImages_receives_dangling:
  assumes "fst (FromParam lib (fst (ToParam lib (heap w F)))) = heap w F"
  shows "calls (snd (pruneImages lib ctx cli all F w)) =
           calls w @ [Call Images ctx (next_ref w)
                        (insert (''dangling'', if all then ''false'' else ''true'') (heap w F))]
       \<and> snd (snd (fst (pruneImages lib ctx cli all F w))) =
           (case ImagesPrune cli ctx
                   (insert (''dangling'', if all then ''false'' else ''true'') (heap w F)) of
              Inl e \<Rightarrow> Some e | Inr rep \<Rightarrow> None)"
  using assms by (simp add: pruneImages_eq image_fields_def Let_def split: sum.splits)

theorem pruneImages_receives_dangling_witness:
  "fst (FromParam sample_codec (fst (ToParam sample_codec (heap sample_world 0)))) =
     heap sample_world 0
   \<and> calls (snd (pruneImages sample_codec sample_ctx sample_client False 0 sample_world)) =
       [Call Images sample_ctx 1 {(''dangling'', ''true''), (''label'', ''env=staging'')}]
   \<and> snd (snd (fst (pruneImages sample_codec sample_ctx sample_client False 0 sample_world)))
       = None"
proof -
  have h: "fst (FromParam sample_codec (fst (ToParam sample_codec (heap sample_world 0)))) =
     heap sample_world 0"
    by (simp add: sample_codec_def sample_world_simps)
  have i: "ImagesPrune sample_client sample_ctx
             {(''dangling'', ''true''), (''label'', ''env=staging'')} =
             Inr \<lparr>Deleted = replicate 2 ''i'', SpaceReclaimed = 2000\<rparr>"
    by (simp add: sample_client_def insert_commute)
  from pruneImages_receives_dangling
         [OF h, of sample_ctx sample_client False] h i
  show ?thesis by (simp add: sample_world_simps)
qed

text \<open>
  Claim C4. In every cycle the filter set \<open>F\<close> is not mutated by the image-prune
  operation: after the cycle the map of \<open>F\<close> holds what it held before; every call to the
  container, network or volume capability, before or after the image-prune call, receives
  the reference \<open>F\<close> with exactly those contents; the image-prune call receives another
  reference. \<open>F\<close> is a reference that has been allocated.
\<close>

theorem runPrune_filter_unaliased:
  assumes "F < next_ref w"
    and "runPrune lib ctx cli all F w = (res, w')"
  shows "heap w' F = heap w F \<and>
    (\<forall>c \<in> set (drop (length (calls w)) (calls w')).
       if call_op c = Images then call_ref c \<noteq> F
       else call_ref c = F \<and> call_fields c = heap w F)"
proof -
  from assms(1) have ne: "F \<noteq> next_ref w" by simp
  show ?thesis
  proof (cases rule: runPrune_paths
      [where cli=cli and ctx=ctx and lib=lib and all=all and w=w and F=F])
    case (containers_fail e)
    from path1 [OF this, of lib all] assms(2) show ?thesis by auto
  next
    case (images_fail rc e)
    from path2 [OF this] assms(2) ne show ?thesis by auto
  next
    case (networks_fail rc ri e)
    from path3 [OF ne this] assms(2) ne show ?thesis by auto
  next
    case (volumes_fail rc ri rn e)
    from path4 [OF ne this] assms(2) ne show ?thesis by auto
  next
    case (success rc ri rn rv)
    from path5 [OF ne this] assms(2) ne show ?thesis by auto
  qed
qed

theorem runPrune_filter_unaliased_witness:
  "(0::nat) < next_ref sample_world
   \<and> heap (snd (runPrune sample_codec sample_ctx sample_client False 0 sample_world)) 0 =
       {(''label'', ''env=staging'')}
   \<and> map (\<lambda>c. (call_op c, call_ref c))
       (calls (snd (runPrune sample_codec sample_ctx sample_client False 0 sample_world))) =
       [(Containers, 0), (Images, 1), (Networks, 0), (Volumes, 0)]"
proof -
  have h: "(0::nat) < next_ref sample_world" by (simp add: sample_world_simps)
  from runPrune_filter_unaliased [OF h sample_cycle] h
  show ?thesis by (simp add: sample_cycle sample_world_simps)
qed


text \<open>
  Claim C5. In every cycle in which a prune operation fails with error \<open>E\<close> (the engine
  answers a call of the cycle with \<open>E\<close>), the executor aborts at once: the failed call is
  the last call of the cycle, the calls made are the operations of the fixed sequence up to
  the failed one and no other (when the container-prune call fails, it is the only call),
  the result of the cycle is exactly \<open>E\<close>, and no total is logged.
\<close>

theorem runPrune_aborts_at_first_error:
  assumes "F < next_ref w"
    and "runPrune lib ctx cli all F w = (res, w')"
    and "k < length (drop (length (calls w)) (calls w'))"
    and "response cli (drop (length (calls w)) (calls w') ! k) = Inl E"
  shows "res = Some E
       \<and> map call_op (drop (length (calls w)) (calls w')) =
           take (Suc k) [Containers, Images, Networks, Volumes]
       \<and> \<not> list_ex reports_total (drop (length (logged w)) (logged w'))"
proof -
  from assms(1) have ne: "F \<noteq> next_ref w" by simp
  show ?thesis
  proof (cases rule: runPrune_paths
      [where cli=cli and ctx=ctx and lib=lib and all=all and w=w and F=F])
    case (containers_fail e)
    from path1 [OF this, of lib all] assms(2-4) this show ?thesis by auto
  next
    case (images_fail rc e)
    from path2 [OF this] assms(2-4) this show ?thesis
      by (auto simp: less_Suc_eq nth_Cons' summary_def)
  next
    case (networks_fail rc ri e)
    from path3 [OF ne this] assms(2-4) this show ?thesis
      by (auto simp: less_Suc_eq nth_Cons' summary_def)
  next
    case (volumes_fail rc ri rn e)
    from path4 [OF ne this] assms(2-4) this show ?thesis
      by (auto simp: less_Suc_eq nth_Cons' summary_def)
  next
    case (success rc ri rn rv)
    from path5 [OF ne this] assms(2-4) this show ?thesis
      by (auto simp: less_Suc_eq nth_Cons' summary_def)
  qed
qed

theorem runPrune_aborts_at_first_error_witness:
  "(0::nat) < next_ref sample_world
   \<and> response failing_client
       (Call Containers sample_ctx 0 {(''label'', ''env=staging'')}) = Inl ''engine unavailable''
   \<and> fst (runPrune sample_codec sample_ctx failing_client False 0 sample_world) =
       Some ''engine unavailable''
   \<and> map call_op
       (calls (snd (runPrune sample_codec sample_ctx failing_client False 0 sample_world))) =
       [Containers]
   \<and> logged (snd (runPrune sample_codec sample_ctx failing_client False 0 sample_world)) = []"
proof -
  have h: "(0::nat) < next_ref sample_world" by (simp add: sample_world_simps)
  have r: "response failing_client
       (Call Containers sample_ctx 0 {(''label'', ''env=staging'')}) = Inl ''engine unavailable''"
    by (simp add: failing_client_def)
  have k: "0 < length (drop (length (calls sample_world))
       (calls (sample_world\<lparr>calls :=
          [Call Containers sample_ctx 0 {(''label'', ''env=staging'')}]\<rparr>)))"
    by (simp add: sample_world_simps)
  have e: "response failing_client (drop (length (calls sample_world))
       (calls (sample_world\<lparr>calls :=
          [Call Containers sample_ctx 0 {(''label'', ''env=staging'')}]\<rparr>)) ! 0) =
       Inl ''engine unavailable''"
    using r by (simp add: sample_world_simps)
  from runPrune_aborts_at_first_error [OF h failing_cycle k e] h r
  show ?thesis by (simp add: failing_cycle sample_world_simps)
qed

text \<open>
  Claim C6. In every cycle in which the four prune operations succeed, with reclaimed byte
  counts \<open>c\<close> (containers), \<open>i\<close> (images), \<open>n\<close> (networks) and \<open>v\<close> (volumes), the
  capabilities are called in the order containers, images, networks, volumes; the network
  operation contributes 0 bytes whatever the engine reports; and the total that is logged
  is \<open>c + i + v\<close>. The counts are \<open>uint64\<close> and so is their sum; when the sum of the three
  numbers is below \<open>2^64\<close> the line logged is that number in decimal.
\<close>

theorem runPrune_total_reclaimed:
  assumes "F < next_ref w"
    and "ContainersPrune cli ctx (heap w F) = Inr rc"
    and "ImagesPrune cli ctx (image_fields lib all (heap w F)) = Inr ri"
    and "NetworksPrune cli ctx (heap w F) = Inr rn"
    and "VolumesPrune cli ctx (heap w F) = Inr rv"
  shows "fst (runPrune lib ctx cli all F w) = None
       \<and> map call_op (drop (length (calls w)) (calls (snd (runPrune lib ctx cli all F w)))) =
           [Containers, Images, Networks, Volumes]
       \<and> fst (fst (pruneNetworks ctx cli all F w)) = 0
       \<and> last (logged (snd (runPrune lib ctx cli all F w))) =
           Printf InfoLevel ''Total reclaimed space: %d''
             [AU64 (SpaceReclaimed rc + SpaceReclaimed ri + SpaceReclaimed rv)]
       \<and> (unat (SpaceReclaimed rc) + unat (SpaceReclaimed ri) + unat (SpaceReclaimed rv) < 2 ^ 64
            \<longrightarrow> render (last (logged (snd (runPrune lib ctx cli all F w)))) =
                  ''Total reclaimed space: '' @
                  show_nat (unat (SpaceReclaimed rc) + unat (SpaceReclaimed ri)
                            + unat (SpaceReclaimed rv)))"
proof -
  from assms(1) have ne: "F \<noteq> next_ref w" by simp
  have net: "fst (fst (pruneNetworks ctx cli all F w)) = 0"
    by (simp add: pruneNetworks_def Let_def split: sum.splits)
  have sum: "unat (SpaceReclaimed rc) + unat (SpaceReclaimed ri) + unat (SpaceReclaimed rv) < 2 ^ 64
     \<Longrightarrow> unat (SpaceReclaimed rc + SpaceReclaimed ri + SpaceReclaimed rv) =
         unat (SpaceReclaimed rc) + unat (SpaceReclaimed ri) + unat (SpaceReclaimed rv)"
    by (simp add: unat_word_ariths)
  from path5 [OF ne assms(2-5)] net sum show ?thesis
    by (simp add: Sprintf_total del: Sprintf.simps)
qed

theorem runPrune_total_reclaimed_witness:
  "(0::nat) < next_ref sample_world
   \<and> NetworksPrune sample_client sample_ctx (heap sample_world 0) =
       Inr \<lparr>Deleted = [''n''], SpaceReclaimed = 77\<rparr>
   \<and> fst (runPrune sample_codec sample_ctx sample_client False 0 sample_world) = None
   \<and> last (logged (snd (runPrune sample_codec sample_ctx sample_client False 0 sample_world))) =
       Printf InfoLevel ''Total reclaimed space: %d'' [AU64 3500]
   \<and> render (last (logged
        (snd (runPrune sample_codec sample_ctx sample_client False 0 sample_world)))) =
       ''Total reclaimed space: 3500''"
proof -
  have h: "(0::nat) < next_ref sample_world" by (simp add: sample_world_simps)
  have c: "ContainersPrune sample_client sample_ctx (heap sample_world 0) =
             Inr \<lparr>Deleted = replicate 5 ''c'', SpaceReclaimed = 1000\<rparr>"
    by (simp add: sample_client_def)
  have i: "ImagesPrune sample_client sample_ctx
             (image_fields sample_codec False (heap sample_world 0)) =
             Inr \<lparr>Deleted = replicate 2 ''i'', SpaceReclaimed = 2000\<rparr>"
    by (simp add: sample_client_def sample_world_simps sample_image_fields)
  have n: "NetworksPrune sample_client sample_ctx (heap sample_world 0) =
             Inr \<lparr>Deleted = [''n''], SpaceReclaimed = 77\<rparr>"
    by (simp add: sample_client_def)
  have v: "VolumesPrune sample_client sample_ctx (heap sample_world 0) =
             Inr \<lparr>Deleted = replicate 3 ''v'', SpaceReclaimed = 500\<rparr>"
    by (simp add: sample_client_def)
  have d: "show_nat 3500 = ''3500''" by (simp add: show_nat.simps digit_def)
  from runPrune_total_reclaimed [OF h c i n v] h n d
  show ?thesis by simp
qed

text \<open>
  Claim C10. When serialising the filter set \<open>F\<close> or reparsing the result fails,
  \<open>cloneArgs\<close> returns the empty filter set without a sign of the failure: the image-prune
  capability is called with the dangling criterion alone, nothing is logged, and the error
  of the operation is the engine's answer to that call and nothing else. The codec is a
  parameter, taken to follow the convention that an error comes with the zero value.
\<close>

theorem cloneArgs_failure_drops_filters:
  assumes "zero_on_error lib"
    and "snd (ToParam lib (heap w F)) \<noteq> None
         \<or> snd (FromParam lib (fst (ToParam lib (heap w F)))) \<noteq> None"
  shows "heap (snd (cloneArgs lib F w)) (fst (cloneArgs lib F w)) = {}
       \<and> calls (snd (pruneImages lib ctx cli all F w)) =
           calls w @ [Call Images ctx (next_ref w)
                        {(''dangling'', if all then ''false'' else ''true'')}]
       \<and> logged (snd (pruneImages lib ctx cli all F w)) = logged w
       \<and> snd (snd (fst (pruneImages lib ctx cli all F w))) =
           (case ImagesPrune cli ctx {(''dangling'', if all then ''false'' else ''true'')} of
              Inl e \<Rightarrow> Some e | Inr rep \<Rightarrow> None)"
proof -
  have empty: "fst (FromParam lib (fst (ToParam lib (heap w F)))) = {}"
  proof (cases "snd (ToParam lib (heap w F)) = None")
    case True
    with assms(2) have "snd (FromParam lib (fst (ToParam lib (heap w F)))) \<noteq> None" by simp
    with assms(1) show ?thesis unfolding zero_on_error_def by blast
  next
    case False
    with assms(1) have "fst (ToParam lib (heap w F)) = []" unfolding zero_on_error_def by blast
    with assms(1) show ?thesis unfolding zero_on_error_def by simp
  qed
  then show ?thesis
    by (simp add: pruneImages_eq image_fields_def cloneArgs_def Let_def split: sum.splits)
qed

theorem cloneArgs_failure_drops_filters_witness:
  "zero_on_error failing_codec
   \<and> snd (ToParam failing_codec (heap sample_world 0)) = Some ''json: unsupported value''
   \<and> heap sample_world 0 = {(''label'', ''env=staging'')}
   \<and> calls (snd (pruneImages failing_codec sample_ctx sample_client False 0 sample_world)) =
       [Call Images sample_ctx 1 {(''dangling'', ''true'')}]
   \<and> snd (snd (fst (pruneImages failing_codec sample_ctx sample_client False 0 sample_world)))
       = Some ''unexpected filters''"
proof -
  have z: "zero_on_error failing_codec"
    by (simp add: zero_on_error_def failing_codec_def)
  have f: "snd (ToParam failing_codec (heap sample_world 0)) = Some ''json: unsupported value''"
    by (simp add: failing_codec_def)
  then have h: "snd (ToParam failing_codec (heap sample_world 0)) \<noteq> None
         \<or> snd (FromParam failing_codec (fst (ToParam failing_codec (heap sample_world 0))))
             \<noteq> None"
    by simp
  have i: "ImagesPrune sample_client sample_ctx {(''dangling'', ''true'')} =
             Inl ''unexpected filters''"
    by (auto simp: sample_client_def)
  from cloneArgs_failure_drops_filters [OF z h, of sample_ctx sample_client False] z f i
  show ?thesis by (simp add: sample_world_simps)
qed


section \<open>Properties of startup and of the scheduler\<close>

lemma inv_startup: "startup ev cfg = Inr s0 \<Longrightarrow> inv cfg s0"
  by (auto simp: startup_def inv_def chan_send_def split: sum.splits if_splits)

lemma tail_all:
  assumes "\<forall>i < length (x # xs). 0 < i \<or> Q \<longrightarrow> P ((x # xs) ! i)"
  shows "\<forall>i < length xs. P (xs ! i)"
proof (intro allI impI)
  fix i assume "i < length xs"
  with assms [rule_format, of "Suc i"] show "P (xs ! i)" by simp
qed

lemma inv_step:
  assumes "inv cfg s" and "step e s = Some s'"
  shows "inv cfg s'"
proof (cases e)
  case Tick
  with assms show ?thesis by (auto simp: inv_def chan_send_def split: if_splits)
next
  case TakeTick
  with assms show ?thesis by (auto simp: inv_def chan_send_def split: if_splits)
next
  case (TakeRequest now)
  with assms show ?thesis by (auto simp: inv_def Let_def log_def nth_Cons' split: if_splits)
next
  case (Expire i)
  with assms show ?thesis
    by (auto simp: inv_def nth_list_update split: if_splits)
next
  case (Finish i)
  with assms show ?thesis
    by (auto simp: inv_def nth_list_update split: if_splits prod.splits
        dest: runPrune_next_ref)
next
  case TakeDone
  with assms show ?thesis
    by (cases "workers s") (auto simp: inv_def log_def nth_Cons' split: if_splits)
next
  case TakeResult
  show ?thesis
  proof (cases "workers s")
    case Nil
    with TakeResult assms show ?thesis by simp
  next
    case (Cons wk ws)
    with assms(1) have "\<forall>i < length ws. expired (ws ! i)"
      unfolding inv_def by (auto intro: tail_all)
    with Cons TakeResult assms show ?thesis
      by (auto simp: inv_def log_def split: if_splits phase.splits)
  qed
qed

lemma inv_run: "inv cfg s \<Longrightarrow> run es s = Some s' \<Longrightarrow> inv cfg s'"
  by (induction es arbitrary: s) (auto split: option.splits dest: inv_step)

lemma inv_reachable: "reachable ev cfg s \<Longrightarrow> inv cfg s"
  unfolding reachable_def run_from_def
  by (cases "startup ev cfg") (auto dest: inv_startup inv_run)

text \<open>A coordinator inside the blocked send stays there, and no worker is started.\<close>

lemma blocked_step:
  assumes "pc s = SendBlocked" and "step e s = Some s'"
  shows "pc s' = SendBlocked \<and> length (workers s') = length (workers s)"
  using assms
  by (cases e) (auto simp: Let_def split: if_splits prod.splits list.splits)

lemma blocked_run:
  "pc s = SendBlocked \<Longrightarrow> run es s = Some s'
     \<Longrightarrow> pc s' = SendBlocked \<and> length (workers s') = length (workers s)"
proof (induction es arbitrary: s)
  case Nil
  then show ?case by simp
next
  case (Cons e es)
  then obtain s1 where s1: "step e s = Some s1" "run es s1 = Some s'"
    by (auto split: option.splits)
  from blocked_step [OF Cons.prems(1) s1(1)] Cons.IH [OF _ s1(2)] show ?case by simp
qed

text \<open>No overflow in the timeout \<open>*intervalF - time.Second\<close> once the ticker exists.\<close>

lemma timeout_exact:
  fixes d :: duration
  assumes "0 < sint d"
  shows "sint (d - 1000000000) = sint d - 1000000000"
proof -
  have "sint d < 2 ^ 63" using sint_lt [of d] by simp
  with assms have "signed_take_bit 63 (sint d - 1000000000) = sint d - 1000000000"
    by (intro signed_take_bit_int_eq_self) simp_all
  then show ?thesis by (simp add: sint_word_ariths)
qed

lemma live_le_one:
  assumes "\<forall>i < length ws. 0 < i \<longrightarrow> expired (ws ! i)"
  shows "length (filter (\<lambda>wk. phase wk = Executing \<and> \<not> expired wk) ws) \<le> 1"
proof (cases ws)
  case Nil
  then show ?thesis by simp
next
  case (Cons wk ws')
  with assms have "\<forall>i < length ws'. expired (ws' ! i)"
    by (auto intro: tail_all [where Q = False])
  then have "filter (\<lambda>wk. phase wk = Executing \<and> \<not> expired wk) ws' = []"
    by (auto simp: filter_empty_conv in_set_conv_nth)
  with Cons show ?thesis by simp
qed

text \<open>The examples, evaluated.\<close>

lemma startup_sample:
  "startup sample_env sample_config = Inr (sample_start sample_client 86400000000000)"
  by (simp add: startup_def sample_env_def sample_config_def sample_ParseFlag_def
      chan_send_def sample_world_def sample_start_def)


lemma startup_fast:
  "startup sample_env fast_config = Inr (sample_start sample_client 1)"
  by (simp add: startup_def sample_env_def fast_config_def sample_config_def
      sample_ParseFlag_def chan_send_def sample_world_def sample_start_def)

lemma fast_blocked:
  "run_from sample_env fast_config (Tick # TakeTick # es) =
     run es ((sample_start sample_client 1)\<lparr>pc := SendBlocked\<rparr>)"
  by (simp add: run_from_def startup_fast chan_send_def sample_start_def)



lemma overlap_run_state:
  "run_from sample_env sample_config overlap_run =
     Some ((sample_start sample_client 86400000000000)
       \<lparr>queue := 0, pc := InnerSelect,
        workers := [\<lparr>wctx = \<lparr>deadline = 172799000000000\<rparr>, expired = False,
                     phase = Executing\<rparr>,
                    \<lparr>wctx = sample_ctx, expired = True, phase = Executing\<rparr>],
        world_of := sample_world
          \<lparr>logged := [Print InfoLevel [AStr ''Start cleaning up unused data''],
                      Print WarnLevel [AStr ''context deadline exceeded''],
                      Print InfoLevel [AStr ''Start cleaning up unused data'']]\<rparr>\<rparr>)"
  by (simp add: run_from_def startup_sample sample_start_def overlap_run_def chan_send_def
      Let_def log_def sample_world_simps sample_ctx_def)


text \<open>
  Claim C1. A timer tick taken while a request is pending is to be a no-op: the send on the
  full queue of capacity 1 is to be discarded without blocking the coordinator. The code
  sends with a plain send statement. Evaluated with \<open>--interval=1ns\<close>: the tick is taken
  while the request of the startup is still in the queue (the coordinator is at the outer
  \<open>select\<close>, the queue holds 1); the coordinator then stands inside the send, and in every
  continuation of the run it still stands there and no cycle has been started.
\<close>

theorem tick_while_pending_blocks:
  "map_option queue (run_from sample_env fast_config [Tick]) = Some 1
   \<and> map_option pc (run_from sample_env fast_config [Tick]) = Some OuterSelect
   \<and> map_option pc (run_from sample_env fast_config [Tick, TakeTick]) = Some SendBlocked
   \<and> (\<forall>es. map_option (\<lambda>s. (pc s, length (workers s)))
              (run_from sample_env fast_config (Tick # TakeTick # es))
            \<in> {None, Some (SendBlocked, 0)})"
proof -
  have "map_option (\<lambda>s. (pc s, length (workers s)))
              (run_from sample_env fast_config (Tick # TakeTick # es))
            \<in> {None, Some (SendBlocked, 0)}" for es
    unfolding fast_blocked
    by (cases "run es ((sample_start sample_client 1)\<lparr>pc := SendBlocked\<rparr>)")
      (auto simp: sample_start_def dest: blocked_run [rotated])
  then show ?thesis
    by (simp add: run_from_def startup_fast chan_send_def sample_start_def)
qed

text \<open>
  Claim C2, as stated: in every reachable state at most one Cycle Execution is active,
  abandoned executions included. It fails: after the first cycle has timed out and the next
  tick has started the second, two workers are inside \<open>runPrune\<close>.
\<close>

theorem abandoned_execution_overlaps:
  "reachable sample_env sample_config (the (run_from sample_env sample_config overlap_run))
   \<and> active (the (run_from sample_env sample_config overlap_run)) = 2"
proof -
  have "reachable sample_env sample_config (the (run_from sample_env sample_config overlap_run))"
    unfolding reachable_def by (rule exI [of _ overlap_run]) (simp add: overlap_run_state)
  then show ?thesis by (simp add: overlap_run_state active_def)
qed

text \<open>
  Claim C2, amended. In every reachable state at most one active Cycle Execution has a
  context that is not done; every worker but the latest has a context that is done; and
  when the coordinator is not waiting for a cycle, no active execution has a context that
  is not done.
\<close>

theorem one_unexpired_execution:
  assumes "reachable ev cfg s"
  shows "live s \<le> 1
       \<and> (\<forall>i < length (workers s). 0 < i \<longrightarrow> expired (workers s ! i))
       \<and> (pc s \<noteq> InnerSelect \<longrightarrow> live s = 0)"
proof -
  from inv_reachable [OF assms] have
    a: "\<forall>i < length (workers s). 0 < i \<or> pc s \<noteq> InnerSelect \<longrightarrow> expired (workers s ! i)"
    by (simp add: inv_def)
  then have b: "\<forall>i < length (workers s). 0 < i \<longrightarrow> expired (workers s ! i)" by blast
  have c: "live s = 0" if "pc s \<noteq> InnerSelect"
    using a that by (auto simp: live_def filter_empty_conv in_set_conv_nth)
  from live_le_one [OF b] b c show ?thesis by (simp add: live_def)
qed

theorem one_unexpired_execution_witness:
  "reachable sample_env sample_config (the (run_from sample_env sample_config overlap_run))
   \<and> live (the (run_from sample_env sample_config overlap_run)) = 1
   \<and> expired (workers (the (run_from sample_env sample_config overlap_run)) ! 1)"
proof -
  have r: "reachable sample_env sample_config
             (the (run_from sample_env sample_config overlap_run))"
    unfolding reachable_def by (rule exI [of _ overlap_run]) (simp add: overlap_run_state)
  from one_unexpired_execution [OF r] r
  show ?thesis by (simp add: overlap_run_state live_def)
qed

text \<open>
  Claim C7. Every Cycle Execution begins with a deadline of exactly the interval minus one
  second from the moment the request is taken from the queue: the worker that the
  coordinator starts at time \<open>now\<close> has the deadline \<open>now + interval - 1s\<close> (in
  nanoseconds, without overflow), its context is done from the start exactly when the
  interval is at most one second, and every engine call of that worker carries this
  deadline.
\<close>

theorem cycle_deadline:
  assumes "reachable ev cfg s" and "step (TakeRequest now) s = Some s'"
  shows "workers s' =
           \<lparr>wctx = \<lparr>deadline = now + (sint (intervalF cfg) - 1000000000)\<rparr>,
            expired = (sint (intervalF cfg) \<le> 1000000000), phase = Executing\<rparr> # workers s
       \<and> (\<forall>s''. step (Finish 0) s' = Some s'' \<longrightarrow>
            (\<forall>c \<in> set (drop (length (calls (world_of s'))) (calls (world_of s''))).
               deadline (call_ctx c) = now + (sint (intervalF cfg) - 1000000000)))"
proof -
  from inv_reachable [OF assms(1)] have i: "interval s = intervalF cfg" "0 < sint (interval s)"
    "st_args s < next_ref (world_of s)"
    by (auto simp: inv_def)
  from i(1,2) have t: "sint (interval s - 1000000000) = sint (intervalF cfg) - 1000000000"
    using timeout_exact by simp
  from assms(2) t have w: "workers s' =
           \<lparr>wctx = \<lparr>deadline = now + (sint (intervalF cfg) - 1000000000)\<rparr>,
            expired = (sint (intervalF cfg) \<le> 1000000000), phase = Executing\<rparr> # workers s"
    by (auto simp: Let_def split: if_splits)
  from assms(2) i(3) have n: "st_args s' < next_ref (world_of s')"
    by (auto simp: Let_def log_def split: if_splits)
  have "\<forall>c \<in> set (drop (length (calls (world_of s'))) (calls (world_of s''))).
               deadline (call_ctx c) = now + (sint (intervalF cfg) - 1000000000)"
    if "step (Finish 0) s' = Some s''" for s''
    using that w runPrune_ctx [OF n]
    by (auto split: if_splits prod.splits)
  with w show ?thesis by blast
qed

theorem cycle_deadline_witness:
  "reachable sample_env sample_config (sample_start sample_client 86400000000000)
   \<and> step (TakeRequest 5) (sample_start sample_client 86400000000000) \<noteq> None
   \<and> map (deadline \<circ> wctx)
       (workers (the (step (TakeRequest 5) (sample_start sample_client 86400000000000)))) =
       [86399000000005]"
proof -
  have r: "reachable sample_env sample_config (sample_start sample_client 86400000000000)"
    unfolding reachable_def by (rule exI [of _ "[]"]) (simp add: run_from_def startup_sample)
  have n: "step (TakeRequest 5) (sample_start sample_client 86400000000000) \<noteq> None"
    by (simp add: sample_start_def Let_def)
  then have s: "step (TakeRequest 5) (sample_start sample_client 86400000000000) =
    Some (the (step (TakeRequest 5) (sample_start sample_client 86400000000000)))"
    by simp
  have c: "intervalF sample_config = 86400000000000" "workers (sample_start c d) = []" for c d
    by (simp_all add: sample_config_def sample_start_def)
  from cycle_deadline [OF r s] r n
  show ?thesis by (simp add: c)
qed





text \<open>
  Claim C9. When a cycle ends with an error, the coordinator hands the string
  \<open>Error occur: %v\<close> and the error to \<open>Error\<close>, a logger method that takes operands and
  no format: the error is not put in the place of \<open>%v\<close>; the text written keeps the
  \<open>%v\<close> and the error's message follows it.
\<close>

theorem error_report_not_formatted:
  assumes "pc s = InnerSelect" and "workers s = wk # ws" and "phase wk = Sending (Some e)"
  shows "step TakeResult s =
           Some (s\<lparr>pc := OuterSelect, workers := ws,
                   world_of := log (Print ErrorLevel [AStr ''Error occur: %v'', AErr e])
                                 (world_of s)\<rparr>)
       \<and> render (Print ErrorLevel [AStr ''Error occur: %v'', AErr e]) = ''Error occur: %v'' @ e"
  using assms by simp

theorem error_report_not_formatted_witness:
  "pc failed_state = InnerSelect
   \<and> map_option (last \<circ> logged \<circ> world_of) (step TakeResult failed_state) =
       Some (Print ErrorLevel [AStr ''Error occur: %v'', AErr ''engine unavailable''])
   \<and> map_option (render \<circ> last \<circ> logged \<circ> world_of) (step TakeResult failed_state) =
       Some ''Error occur: %vengine unavailable''"
proof -
  have p: "pc failed_state = InnerSelect"
    by (simp add: failed_state_def sample_start_def)
  have w: "workers failed_state =
          \<lparr>wctx = sample_ctx, expired = False, phase = Sending (Some ''engine unavailable'')\<rparr>
          # []"
    by (simp add: failed_state_def sample_start_def)
  have q: "phase \<lparr>wctx = sample_ctx, expired = False,
                phase = Sending (Some ''engine unavailable'')\<rparr> =
          Sending (Some ''engine unavailable'')"
    by simp
  from error_report_not_formatted [OF p w q] p
  show ?thesis by (simp add: log_def)
qed

end
